theory Spec2Isabelle
  imports Complex_Main
begin

section \<open>The linear program handed to the adapter\<close>

text \<open>
  The embedding follows \<^verbatim>\<open>LinearProgramSolver::_solve_LPSOLVE\<close> in
  \<^verbatim>\<open>src/math/linear_program_solver_LPSOLVE.cpp\<close>. Values of type \<^verbatim>\<open>double\<close> are
  only copied by that function, never added or multiplied, so they are modelled as
  \<^typ>\<open>real\<close>. Values of type \<^verbatim>\<open>std::size_t\<close> are natural numbers, with the
  wrap-around of \<^verbatim>\<open>var_idx + 1\<close> and the narrowing to \<^verbatim>\<open>int\<close> written out.
\<close>

datatype variable_type = CONTINUOUS | INTEGER | BINARY

text \<open>
  Modelled from the spec: the enumerators of the bound type are declared in
  \<^verbatim>\<open>linear_program.h\<close>, which is not part of the sources at hand. The function names
  \<^verbatim>\<open>FIXED\<close>, \<^verbatim>\<open>LOWER\<close>, \<^verbatim>\<open>UPPER\<close> and \<^verbatim>\<open>DOUBLE\<close>; \<open>NONE\<close> (the spec's word for a
  variable without explicit bounds) stands for every other enumerator, the one that
  reaches the \<^verbatim>\<open>default\<close> branch of the switch over the constraint's bound type.
\<close>

datatype bound_type = FIXED | LOWER | UPPER | DOUBLE | NONE

record variable =
  var_type :: variable_type
  var_bound_type :: bound_type
  var_lb :: real
  var_ub :: real

text \<open>
  A \<^verbatim>\<open>std::unordered_map<std::size_t, double>\<close> is the list of its entries in the order
  in which the iterator visits them; that order is arbitrary, and the keys are distinct.
\<close>

type_synonym coefficient_map = "(nat \<times> real) list"

record linear_constraint =
  coefficients :: coefficient_map
  cstr_bound_type :: bound_type
  cstr_bound :: real
  cstr_lb :: real
  cstr_ub :: real

record linear_program =
  variables :: "variable list"
  objective :: coefficient_map
  constraints :: "linear_constraint list"

section \<open>The engine, seen through the calls made to it\<close>

datatype verbosity = SEVERE

datatype constr_type = EQ | GE | LE

datatype engine_call =
    Make_lp int int
  | Set_verbose verbosity
  | Set_int int bool
  | Set_binary int bool
  | Set_obj_fn "real list"
  | Get_Ncolumns
  | Resize_lp int int
  | Set_add_rowmode bool
  | Add_constraintex int "real list" "int list" constr_type real
  | Solve
  | Get_variables
  | Delete_lp

datatype log_entry = Cerr string | Logger_err string

text \<open>
  What can be thrown inside the \<^verbatim>\<open>try\<close> block: an exception derived from
  \<^verbatim>\<open>std::exception\<close> (it is caught by value, so only the text of \<^verbatim>\<open>what()\<close> is left)
  or anything else. The places that can throw are the allocations of the function's own
  vectors.
\<close>

datatype thrown = Std_exception string | Other_exception

datatype alloc_site = Alloc_row | Alloc_pairs nat | Alloc_result

text \<open>
  The answers of the surroundings: whether \<^verbatim>\<open>make_lp\<close> returns a null handle, what
  \<^verbatim>\<open>get_Ncolumns\<close>, \<^verbatim>\<open>solve\<close> and \<^verbatim>\<open>get_variables\<close> answer after the calls made so
  far, and which allocation throws.
\<close>

record env =
  lp_make_null :: bool
  lp_Ncolumns :: "engine_call list \<Rightarrow> int"
  lp_solve :: "engine_call list \<Rightarrow> int"
  lp_variables :: "engine_call list \<Rightarrow> nat \<Rightarrow> real"
  throws :: "alloc_site \<Rightarrow> thrown option"

text \<open>
  The state the function reads and writes: the member \<^verbatim>\<open>result_\<close> of the solver
  object (the field \<open>result\<close>: a name cannot end with an underscore here), the lines
  written to \<^verbatim>\<open>std::cerr\<close> and \<^verbatim>\<open>Logger::err\<close>, and the engine calls made so far.
\<close>

record world =
  result :: "real list"
  log :: "log_entry list"
  calls :: "engine_call list"

definition call :: "engine_call \<Rightarrow> world \<Rightarrow> world" where
  "call c w = w\<lparr>calls := calls w @ [c]\<rparr>"

definition write_log :: "log_entry \<Rightarrow> world \<Rightarrow> world" where
  "write_log e w = w\<lparr>log := log w @ [e]\<rparr>"

section \<open>Machine integers\<close>

definition succ_size_t :: "nat \<Rightarrow> nat" where
  "succ_size_t k = (k + 1) mod 2 ^ 64"

definition int_of_size_t :: "nat \<Rightarrow> int" where
  "int_of_size_t k =
     (let m = int k mod 2 ^ 32 in if m < 2 ^ 31 then m else m - 2 ^ 32)"

section \<open>The function, phase by phase\<close>

text \<open>
  How a phase of the \<^verbatim>\<open>try\<close> block ends: it falls through to the next statement, it
  executes a \<^verbatim>\<open>return\<close>, it throws, or it writes outside a vector (undefined behaviour,
  about which nothing is said).
\<close>

datatype flow = Next world | Return bool world | Raised thrown world | Out_of_bounds

definition and_then :: "flow \<Rightarrow> (world \<Rightarrow> flow) \<Rightarrow> flow" where
  "and_then f k =
     (case f of
        Next w \<Rightarrow> k w
      | Return b w \<Rightarrow> Return b w
      | Raised t w \<Rightarrow> Raised t w
      | Out_of_bounds \<Rightarrow> Out_of_bounds)"

text \<open>Lines 28 to 39: the loop over the variables, \<open>i\<close> counting from 0.\<close>

fun create_variables :: "variable list \<Rightarrow> nat \<Rightarrow> world \<Rightarrow> world" where
  "create_variables [] i w = w"
| "create_variables (var # rest) i w =
     (let (lb, ub) = (if var_bound_type var = DOUBLE then (var_lb var, var_ub var)
                      else (0, 1))
      in create_variables rest (Suc i)
           (if var_type var = INTEGER then call (Set_int (int_of_size_t i) True) w
            else if var_type var = BINARY then call (Set_binary (int_of_size_t i) True) w
            else w))"

text \<open>
  Lines 49 to 54: \<^verbatim>\<open>row[var_idx + 1] = coeff\<close> for every entry of the objective.
  \<open>None\<close> is a write outside the vector.
\<close>

fun fill_row :: "coefficient_map \<Rightarrow> real list \<Rightarrow> real list option" where
  "fill_row [] row = Some row"
| "fill_row ((var_idx, coeff) # rest) row =
     (if succ_size_t var_idx < length row
      then fill_row rest (row[succ_size_t var_idx := coeff])
      else None)"

definition set_objective :: "env \<Rightarrow> linear_program \<Rightarrow> world \<Rightarrow> flow" where
  "set_objective e program w =
     (case throws e Alloc_row of
        Some t \<Rightarrow> Raised t w
      | None \<Rightarrow>
          (case fill_row (objective program)
                  (replicate (length (variables program) + 1) 0) of
             None \<Rightarrow> Out_of_bounds
           | Some row \<Rightarrow> Next (call (Set_obj_fn row) w)))"

text \<open>Lines 72 to 78: the two vectors of one constraint, filled by \<^verbatim>\<open>push_back\<close>.\<close>

fun collect_pairs ::
  "coefficient_map \<Rightarrow> int list \<times> real list \<Rightarrow> int list \<times> real list" where
  "collect_pairs [] (colno, sparserow) = (colno, sparserow)"
| "collect_pairs ((var_idx, coeff) # rest) (colno, sparserow) =
     collect_pairs rest
       (colno @ [int_of_size_t (succ_size_t var_idx)], sparserow @ [coeff])"

text \<open>Lines 80 to 100: the rows added for one constraint.\<close>

definition constraint_rows :: "linear_constraint \<Rightarrow> engine_call list" where
  "constraint_rows cstr =
     (let (colno, sparserow) = collect_pairs (coefficients cstr) ([], []);
          count = int_of_size_t (length colno)
      in case cstr_bound_type cstr of
           FIXED \<Rightarrow> [Add_constraintex count sparserow colno EQ (cstr_bound cstr)]
         | LOWER \<Rightarrow> [Add_constraintex count sparserow colno GE (cstr_bound cstr)]
         | UPPER \<Rightarrow> [Add_constraintex count sparserow colno LE (cstr_bound cstr)]
         | DOUBLE \<Rightarrow> [Add_constraintex count sparserow colno GE (cstr_lb cstr),
                      Add_constraintex count sparserow colno LE (cstr_ub cstr)]
         | NONE \<Rightarrow> [])"

text \<open>Lines 66 to 101: the loop over the constraints, \<open>i\<close> counting from 0.\<close>

fun add_constraints :: "env \<Rightarrow> linear_constraint list \<Rightarrow> nat \<Rightarrow> world \<Rightarrow> flow" where
  "add_constraints e [] i w = Next w"
| "add_constraints e (cstr # rest) i w =
     (case throws e (Alloc_pairs i) of
        Some t \<Rightarrow> Raised t w
      | None \<Rightarrow>
          add_constraints e rest (Suc i) (w\<lparr>calls := calls w @ constraint_rows cstr\<rparr>))"

text \<open>Lines 105 to 144: the switch over the value returned by \<^verbatim>\<open>solve\<close>.\<close>

definition status_message :: "int \<Rightarrow> string option" where
  "status_message ret =
     (if ret = -2 then Some ''Out of memory''
      else if ret = 1 then Some ''The model is sub-optimal. Only happens if there are integer variables and there is already an integer solution found. The solution is not guaranteed the most optimal one.''
      else if ret = 2 then Some ''The model is infeasible''
      else if ret = 3 then Some ''The model is unbounded''
      else if ret = 4 then Some ''The model is degenerative''
      else if ret = 5 then Some ''Numerical failure encountered''
      else if ret = 6 then Some ''The abort() routine was called''
      else if ret = 7 then Some ''A timeout occurred''
      else if ret = 9 then Some ''The model could be solved by presolve. This can only happen if presolve is active via set_presolve()''
      else if ret = 25 then Some ''Accuracy error encountered''
      else None)"

definition handle_status :: "env \<Rightarrow> nat \<Rightarrow> int \<Rightarrow> world \<Rightarrow> flow" where
  "handle_status e n ret w =
     (if ret = 0 then
        (case throws e Alloc_result of
           Some t \<Rightarrow> Raised t w
         | None \<Rightarrow>
             Next ((call Get_variables w)
                     \<lparr>result := map (lp_variables e (calls w)) [0..<n]\<rparr>))
      else
        (case status_message ret of
           Some msg \<Rightarrow> Next (write_log (Logger_err msg) w)
         | None \<Rightarrow> Next w))"

text \<open>
  Lines 59 to 103: the rows are announced to \<^verbatim>\<open>resize_lp\<close> and added between the two
  calls of \<^verbatim>\<open>set_add_rowmode\<close>.
\<close>

definition add_rows :: "env \<Rightarrow> linear_program \<Rightarrow> world \<Rightarrow> flow" where
  "add_rows e program w =
     (let w1 = call Get_Ncolumns w;
          w2 = call (Resize_lp (int_of_size_t (length (constraints program)))
                       (lp_Ncolumns e (calls w))) w1;
          w3 = call (Set_add_rowmode True) w2
      in and_then (add_constraints e (constraints program) 0 w3)
           (\<lambda>w4. Next (call (Set_add_rowmode False) w4)))"

text \<open>
  Lines 13 to 103: everything before the call of \<^verbatim>\<open>solve\<close>. The values returned by
  the engine's setters are not looked at by the source, so they do not appear.
\<close>

definition translate :: "env \<Rightarrow> linear_program \<Rightarrow> world \<Rightarrow> flow" where
  "translate e program w =
     (if variables program = [] then
        Return False (write_log (Cerr ''variable set is empty'') w)
      else
        let w1 = call (Make_lp 0 (int_of_size_t (length (variables program)))) w
        in if lp_make_null e then
             Return False (write_log (Logger_err ''error in creating a LP model'') w1)
           else
             let w2 = call (Set_verbose SEVERE) w1;
                 w3 = create_variables (variables program) 0 w2
             in and_then (set_objective e program w3) (add_rows e program))"

text \<open>Lines 104 to 144: the call of \<^verbatim>\<open>solve\<close> and the switch over its value.\<close>

definition solve_and_report :: "env \<Rightarrow> nat \<Rightarrow> world \<Rightarrow> flow" where
  "solve_and_report e n w =
     (let ret = lp_solve e (calls w) in handle_status e n ret (call Solve w))"

text \<open>Lines 13 to 146: the body of the \<^verbatim>\<open>try\<close> block.\<close>

definition try_block :: "env \<Rightarrow> linear_program \<Rightarrow> world \<Rightarrow> flow" where
  "try_block e program w =
     and_then (translate e program w)
       (\<lambda>w5. and_then (solve_and_report e (length (variables program)) w5)
          (\<lambda>w6. Next (call Delete_lp w6)))"

text \<open>
  Lines 148 to 155: the two handlers and the final \<^verbatim>\<open>return false\<close>. \<open>None\<close> stands
  for a run that has written outside a vector.
\<close>

definition catch_and_return :: "flow \<Rightarrow> (bool \<times> world) option" where
  "catch_and_return f =
     (case f of
        Return b w' \<Rightarrow> Some (b, w')
      | Next w' \<Rightarrow> Some (False, w')
      | Raised (Std_exception what) w' \<Rightarrow>
          Some (False, write_log (Logger_err (''Error code = '' @ what)) w')
      | Raised Other_exception w' \<Rightarrow>
          Some (False, write_log (Logger_err ''Exception during optimization'') w')
      | Out_of_bounds \<Rightarrow> None)"

text \<open>The whole function: the value it returns and the state it leaves.\<close>

definition solve_LPSOLVE :: "env \<Rightarrow> linear_program \<Rightarrow> world \<Rightarrow> (bool \<times> world) option" where
  "solve_LPSOLVE e program w = catch_and_return (try_block e program w)"

section \<open>What the engine reads from a row\<close>

text \<open>
  The engine's rows are 1-based (lines 43, 44, 53 and 76 of the source): in a dense row
  the element at position \<open>j\<close> is the coefficient of column \<open>j\<close> and the element at
  position 0 is ignored; in a sparse row each column number comes with its coefficient.
  Column \<open>j\<close> stands for the variable of index \<open>j - 1\<close>.
\<close>

definition column_of :: "nat \<Rightarrow> int" where
  "column_of var_idx = int_of_size_t (succ_size_t var_idx)"

definition dense_sum :: "real list \<Rightarrow> (nat \<Rightarrow> real) \<Rightarrow> real" where
  "dense_sum row x = (\<Sum>j = 1..<length row. row ! j * x (j - 1))"

definition sparse_sum :: "int list \<Rightarrow> real list \<Rightarrow> (nat \<Rightarrow> real) \<Rightarrow> real" where
  "sparse_sum colno sparserow x =
     sum_list (map (\<lambda>(j, c). c * x (nat (j - 1))) (zip colno sparserow))"

definition map_sum :: "coefficient_map \<Rightarrow> (nat \<Rightarrow> real) \<Rightarrow> real" where
  "map_sum m x = sum_list (map (\<lambda>(k, c). c * x k) m)"

section \<open>What a caller can observe\<close>

fun is_resize :: "engine_call \<Rightarrow> bool" where
  "is_resize (Resize_lp r c) = True"
| "is_resize other = False"

definition problem_calls :: "engine_call list \<Rightarrow> engine_call list" where
  "problem_calls cs = filter (\<lambda>c. \<not> is_resize c) cs"

text \<open>The calls that hand over the objective row, and the calls that add a row.\<close>

fun is_objective_call :: "engine_call \<Rightarrow> bool" where
  "is_objective_call (Set_obj_fn row) = True"
| "is_objective_call other = False"

fun is_row_call :: "engine_call \<Rightarrow> bool" where
  "is_row_call (Add_constraintex count sparserow colno sense rhs) = True"
| "is_row_call other = False"

definition outcome ::
  "(bool \<times> world) option \<Rightarrow> (bool \<times> real list \<times> log_entry list \<times> engine_call list) option" where
  "outcome r = map_option (\<lambda>(b, w). (b, result w, log w, problem_calls (calls w))) r"

section \<open>Surroundings for the examples\<close>

definition fresh :: world where
  "fresh = \<lparr>result = [], log = [], calls = []\<rparr>"

definition engine_answering :: "int \<Rightarrow> int \<Rightarrow> (nat \<Rightarrow> real) \<Rightarrow> env" where
  "engine_answering ncols ret x =
     \<lparr>lp_make_null = False, lp_Ncolumns = (\<lambda>cs. ncols), lp_solve = (\<lambda>cs. ret),
      lp_variables = (\<lambda>cs. x), throws = (\<lambda>s. None)\<rparr>"

definition example_constraint :: "bound_type \<Rightarrow> linear_constraint" where
  "example_constraint bt =
     \<lparr>coefficients = [(0, 1), (2, 3)], cstr_bound_type = bt,
      cstr_bound = 5, cstr_lb = 1, cstr_ub = 9\<rparr>"

definition unit_variable :: "variable_type \<Rightarrow> variable" where
  "unit_variable vt = \<lparr>var_type = vt, var_bound_type = DOUBLE, var_lb = 0, var_ub = 1\<rparr>"

section \<open>An empty variable set\<close>

text \<open>
  C4. When the program has no variable, the function returns \<open>false\<close> after writing
  ``variable set is empty'' to the error stream, and it makes no engine call: no handle
  is created, nothing is solved, and \<^verbatim>\<open>result_\<close> is as it was.
\<close>

theorem empty_model_no_engine_call:
  assumes "variables program = []"
  shows "solve_LPSOLVE e program w =
           Some (False, w\<lparr>log := log w @ [Cerr ''variable set is empty'']\<rparr>)
         \<and> calls (snd (the (solve_LPSOLVE e program w))) = calls w"
  using assms
  by (simp add: solve_LPSOLVE_def catch_and_return_def try_block_def translate_def
      and_then_def write_log_def)


theorem empty_model_no_engine_call_witness:
  "solve_LPSOLVE (engine_answering 0 0 (\<lambda>j. 0))
      \<lparr>variables = [], objective = [], constraints = []\<rparr> fresh
    = Some (False, \<lparr>result = [], log = [Cerr ''variable set is empty''], calls = []\<rparr>)"
  using empty_model_no_engine_call
    [of "\<lparr>variables = [], objective = [], constraints = []\<rparr>"
        "engine_answering 0 0 (\<lambda>j. 0)" fresh]
  by (simp add: fresh_def)

section \<open>Auxiliary facts about the loops\<close>

lemma collect_pairs_eq:
  "collect_pairs m (colno, sparserow) =
     (colno @ map (\<lambda>(k, c). column_of k) m, sparserow @ map snd m)"
  by (induction m arbitrary: colno sparserow) (auto simp: column_of_def)

lemma add_constraints_no_throw:
  "(\<forall>i. throws e (Alloc_pairs i) = None) \<Longrightarrow>
   add_constraints e cs i w = Next (w\<lparr>calls := calls w @ concat (map constraint_rows cs)\<rparr>)"
  by (induction cs arbitrary: i w) auto

lemma column_of_small: "k < n \<Longrightarrow> n < 2 ^ 31 \<Longrightarrow> column_of k = int k + 1"
  by (simp add: column_of_def succ_size_t_def int_of_size_t_def Let_def)

lemma succ_size_t_small: "k < n \<Longrightarrow> n < 2 ^ 31 \<Longrightarrow> succ_size_t k = Suc k"
  by (simp add: succ_size_t_def)

lemma fill_row_in_range:
  assumes "distinct (map fst m)" and "\<forall>k\<in>fst ` set m. k < n" and "n < 2 ^ 31"
    and "length row = n + 1"
  shows "\<exists>row'. fill_row m row = Some row' \<and> length row' = n + 1 \<and> row' ! 0 = row ! 0 \<and>
           (\<forall>i<n. row' ! (i + 1) = (case map_of m i of Some c \<Rightarrow> c | None \<Rightarrow> row ! (i + 1)))"
  using assms
proof (induction m arbitrary: row)
  case Nil
  then show ?case by simp
next
  case (Cons kc rest)
  obtain k c where kc: "kc = (k, c)" by (cases kc)
  have k: "k < n" using Cons.prems(2) kc by simp
  have s: "succ_size_t k = Suc k" using k Cons.prems(3) by (rule succ_size_t_small)
  have fresh_k: "map_of rest k = None"
    using Cons.prems(1) kc by (simp add: map_of_eq_None_iff)
  from Cons.IH [of "row[Suc k := c]"] Cons.prems kc
  obtain row' where r: "fill_row rest (row[Suc k := c]) = Some row'" "length row' = n + 1"
    "row' ! 0 = row[Suc k := c] ! 0"
    "\<forall>i<n. row' ! (i + 1) = (case map_of rest i of Some c' \<Rightarrow> c' | None \<Rightarrow> row[Suc k := c] ! (i + 1))"
    by auto
  have "fill_row (kc # rest) row = Some row'"
    using r(1) s k Cons.prems(4) kc by simp
  moreover have "\<forall>i<n. row' ! (i + 1) = (case map_of (kc # rest) i of Some c' \<Rightarrow> c' | None \<Rightarrow> row ! (i + 1))"
    using r(4) fresh_k k Cons.prems(4) kc by (auto split: option.splits)
  moreover have "row' ! 0 = row ! 0" using r(3) by simp
  ultimately show ?case using r(2) by blast
qed

lemma coefficient_sum:
  assumes "distinct (map fst m)" and "\<forall>k\<in>fst ` set m. k < n"
  shows "(\<Sum>i<n. (case map_of m i of Some c \<Rightarrow> c | None \<Rightarrow> 0) * x i) = map_sum m x"
  using assms
proof (induction m)
  case Nil
  then show ?case by (simp add: map_sum_def)
next
  case (Cons kc rest)
  obtain k c where kc: "kc = (k, c)" by (cases kc)
  let ?f = "\<lambda>i. (case map_of (kc # rest) i of Some c \<Rightarrow> c | None \<Rightarrow> 0) * x i"
  let ?g = "\<lambda>i. (case map_of rest i of Some c \<Rightarrow> c | None \<Rightarrow> 0) * x i"
  have k: "k \<in> {..<n}" using Cons.prems(2) kc by simp
  have fresh_k: "map_of rest k = None"
    using Cons.prems(1) kc by (simp add: map_of_eq_None_iff)
  have others: "sum ?f ({..<n} - {k}) = sum ?g ({..<n} - {k})"
    by (rule sum.cong) (auto simp: kc)
  have "sum ?f {..<n} = ?f k + sum ?f ({..<n} - {k})"
    using k by (simp add: sum.remove)
  also have "\<dots> = c * x k + sum ?g ({..<n} - {k})"
    using others by (simp add: kc)
  also have "\<dots> = c * x k + (?g k + sum ?g ({..<n} - {k}))"
    using fresh_k by simp
  also have "\<dots> = c * x k + sum ?g {..<n}"
    using k by (simp add: sum.remove)
  also have "\<dots> = c * x k + map_sum rest x"
    using Cons.IH Cons.prems by simp
  finally show ?case by (simp add: map_sum_def kc)
qed

lemma dense_sum_shift:
  "length row = n + 1 \<Longrightarrow> dense_sum row x = (\<Sum>i<n. row ! (i + 1) * x i)"
proof -
  assume l: "length row = n + 1"
  have "dense_sum row x = (\<Sum>j = Suc 0..<Suc n. row ! j * x (j - 1))"
    using l by (simp add: dense_sum_def)
  also have "\<dots> = (\<Sum>i = 0..<n. row ! Suc i * x i)"
    by (subst sum.atLeast_Suc_lessThan_Suc_shift) simp
  finally show ?thesis by (simp add: atLeast0LessThan)
qed

lemma sparse_sum_pairs:
  assumes "\<forall>k\<in>fst ` set m. k < n" and "n < 2 ^ 31"
  shows "sparse_sum (map (\<lambda>(k, c). column_of k) m) (map snd m) x = map_sum m x"
  using assms
  by (induction m) (auto simp: sparse_sum_def map_sum_def column_of_small)

lemma map_sum_order:
  assumes "distinct (map fst m)" and "distinct (map fst m')" and "set m' = set m"
  shows "map_sum m' x = map_sum m x"
proof -
  have "distinct m" "distinct m'" using assms by (auto simp: distinct_map)
  then show ?thesis
    using assms(3) by (simp add: map_sum_def sum_list_distinct_conv_sum_set)
qed

lemma add_rows_no_throw:
  assumes "\<forall>i. throws e (Alloc_pairs i) = None"
  shows "add_rows e p w =
     Next (w\<lparr>calls := calls w @
        [Get_Ncolumns,
         Resize_lp (int_of_size_t (length (constraints p))) (lp_Ncolumns e (calls w)),
         Set_add_rowmode True]
        @ concat (map constraint_rows (constraints p)) @ [Set_add_rowmode False]\<rparr>)"
  using assms
  by (simp add: add_rows_def Let_def call_def and_then_def add_constraints_no_throw)

lemma problem_calls_append [simp]:
  "problem_calls (xs @ ys) = problem_calls xs @ problem_calls ys"
  by (simp add: problem_calls_def)

lemma problem_calls_rows [simp]:
  "problem_calls (concat (map constraint_rows cs)) = concat (map constraint_rows cs)"
  by (induction cs)
    (auto simp: problem_calls_def constraint_rows_def Let_def split: prod.splits bound_type.splits)

lemma report_same_problem:
  assumes "\<forall>cs. lp_solve e cs = lp_solve e (problem_calls cs)"
    and "\<forall>cs. lp_variables e cs = lp_variables e (problem_calls cs)"
    and "result w1 = result w2" and "log w1 = log w2"
    and "problem_calls (calls w1) = problem_calls (calls w2)"
  shows "outcome (catch_and_return (and_then (solve_and_report e n w1)
            (\<lambda>w6. Next (call Delete_lp w6))))
       = outcome (catch_and_return (and_then (solve_and_report e n w2)
            (\<lambda>w6. Next (call Delete_lp w6))))"
proof -
  have ret: "lp_solve e (calls w1) = lp_solve e (calls w2)"
    using assms(1,5) by metis
  have vars: "lp_variables e (calls w1 @ [Solve]) = lp_variables e (calls w2 @ [Solve])"
  proof -
    have "problem_calls (calls w1 @ [Solve]) = problem_calls (calls w2 @ [Solve])"
      using assms(5) by simp
    then show ?thesis using assms(2) by metis
  qed
  show ?thesis
    using ret vars assms(3,4,5)
    by (simp add: solve_and_report_def handle_status_def and_then_def catch_and_return_def
        outcome_def call_def write_log_def Let_def problem_calls_def
        split: option.splits thrown.splits)
qed

lemmas run_defs = solve_LPSOLVE_def catch_and_return_def
        try_block_def translate_def and_then_def write_log_def call_def set_objective_def
        add_rows_def solve_and_report_def handle_status_def constraint_rows_def
        int_of_size_t_def succ_size_t_def engine_answering_def fresh_def
        example_constraint_def unit_variable_def upt_rec

lemma create_variables_keeps:
  "result (create_variables vs i w) = result w \<and> log (create_variables vs i w) = log w"
  by (induction vs arbitrary: i w) (auto simp: call_def)

lemma add_constraints_keeps:
  "case add_constraints e cs i w of
     Next w' \<Rightarrow> result w' = result w \<and> log w' = log w
   | Return b w' \<Rightarrow> result w' = result w
   | Raised t w' \<Rightarrow> result w' = result w \<and> log w' = log w
   | Out_of_bounds \<Rightarrow> True"
proof (induction cs arbitrary: i w)
  case Nil
  then show ?case by simp
next
  case (Cons c cs)
  show ?case
  proof (cases "throws e (Alloc_pairs i)")
    case None
    then show ?thesis
      using Cons.IH [where i = "Suc i" and w = "w\<lparr>calls := calls w @ constraint_rows c\<rparr>"]
      by (simp split: flow.splits)
  next
    case (Some t)
    then show ?thesis by simp
  qed
qed

lemma translate_keeps:
  "case translate e p w of
     Next w' \<Rightarrow> result w' = result w
   | Return b w' \<Rightarrow> result w' = result w
   | Raised t w' \<Rightarrow> result w' = result w
   | Out_of_bounds \<Rightarrow> True"
proof -
  let ?w3 = "create_variables (variables p) 0
      (call (Set_verbose SEVERE) (call (Make_lp 0 (int_of_size_t (length (variables p)))) w))"
  have w3: "result ?w3 = result w"
    by (simp add: create_variables_keeps call_def)
  have rows: "case add_rows e p w4 of
       Next w' \<Rightarrow> result w' = result w4
     | Return b w' \<Rightarrow> result w' = result w4
     | Raised t w' \<Rightarrow> result w' = result w4
     | Out_of_bounds \<Rightarrow> True" for w4
    using add_constraints_keeps [where e = e and cs = "constraints p" and i = 0 and w =
        "call (Set_add_rowmode True)
          (call (Resize_lp (int_of_size_t (length (constraints p))) (lp_Ncolumns e (calls w4)))
            (call Get_Ncolumns w4))"]
    by (simp add: add_rows_def Let_def and_then_def call_def split: flow.splits)
  show ?thesis
  proof (cases "variables p = [] \<or> lp_make_null e")
    case True
    then show ?thesis by (auto simp: translate_def write_log_def call_def Let_def)
  next
    case False
    then have t: "translate e p w = and_then (set_objective e p ?w3) (add_rows e p)"
      by (simp add: translate_def Let_def)
    show ?thesis
    proof (cases "set_objective e p ?w3")
      case (Next w4)
      then have "result w4 = result w"
        using w3 by (auto simp: set_objective_def call_def split: option.splits)
      then show ?thesis
        using rows [where ?w4.0 = w4] Next by (simp add: t and_then_def split: flow.splits)
    next
      case (Return b w4)
      then show ?thesis by (simp add: set_objective_def split: option.splits)
    next
      case (Raised t' w4)
      then have "result w4 = result w"
        using w3 by (auto simp: set_objective_def split: option.splits)
      then show ?thesis using Raised by (simp add: t and_then_def)
    next
      case Out_of_bounds
      then show ?thesis by (simp add: t and_then_def)
    qed
  qed
qed

lemma status_message_inj:
  "inj_on status_message {-2, 1, 2, 3, 4, 5, 6, 7, 9, 25}"
  by (simp add: inj_on_def status_message_def)

lemma create_variables_ignores_bounds:
  "map var_type vs = map var_type vs' \<Longrightarrow> create_variables vs i w = create_variables vs' i w"
proof (induction vs arbitrary: vs' i w)
  case Nil
  then show ?case by simp
next
  case (Cons v vs)
  then obtain v' rest where vs': "vs' = v' # rest" by (cases vs') auto
  then have "var_type v = var_type v'" and "map var_type vs = map var_type rest"
    using Cons.prems by simp_all
  then show ?case using Cons.IH [of rest] vs' by (simp split: prod.splits)
qed

lemma handle_released_without_exception:
  assumes "translate e p w = Next w5"
    and "lp_solve e (calls w5) \<noteq> 0 \<or> throws e Alloc_result = None"
  shows "\<exists>w' mid. solve_LPSOLVE e p w = Some (False, w')
           \<and> calls w' = calls w5 @ mid @ [Delete_lp] \<and> Delete_lp \<notin> set mid"
proof (cases "lp_solve e (calls w5) = 0")
  case True
  then have "throws e Alloc_result = None" using assms(2) by simp
  then have "solve_LPSOLVE e p w =
      Some (False, call Delete_lp ((call Get_variables (call Solve w5))
        \<lparr>result := map (lp_variables e (calls (call Solve w5))) [0..<length (variables p)]\<rparr>))"
    using assms(1) True
    by (simp add: solve_LPSOLVE_def try_block_def and_then_def solve_and_report_def
        handle_status_def catch_and_return_def Let_def)
  moreover have "calls (call Delete_lp ((call Get_variables (call Solve w5))
        \<lparr>result := map (lp_variables e (calls (call Solve w5))) [0..<length (variables p)]\<rparr>))
      = calls w5 @ [Solve, Get_variables] @ [Delete_lp]"
    by (simp add: call_def)
  moreover have "Delete_lp \<notin> set [Solve, Get_variables]" by simp
  ultimately show ?thesis by blast
next
  case False
  let ?w6 = "case status_message (lp_solve e (calls w5)) of
      Some msg \<Rightarrow> write_log (Logger_err msg) (call Solve w5) | None \<Rightarrow> call Solve w5"
  have "solve_LPSOLVE e p w = Some (False, call Delete_lp ?w6)"
    using assms(1) False
    by (simp add: solve_LPSOLVE_def try_block_def and_then_def solve_and_report_def
        handle_status_def catch_and_return_def Let_def split: option.splits)
  moreover have "calls (call Delete_lp ?w6) = calls w5 @ [Solve] @ [Delete_lp]"
    by (simp add: call_def write_log_def split: option.splits)
  moreover have "Delete_lp \<notin> set [Solve]" by simp
  ultimately show ?thesis by blast
qed

lemma create_variables_calls:
  "filter is_row_call (calls (create_variables vs i w)) = filter is_row_call (calls w)
   \<and> filter is_objective_call (calls (create_variables vs i w))
       = filter is_objective_call (calls w)"
  by (induction vs arbitrary: i w) (auto simp: call_def)

lemma constraint_rows_are_rows:
  "filter is_row_call (concat (map constraint_rows cs)) = concat (map constraint_rows cs)
   \<and> filter is_objective_call (concat (map constraint_rows cs)) = []"
  by (induction cs)
    (auto simp: constraint_rows_def Let_def split: prod.splits bound_type.splits)

lemma translate_no_throw:
  assumes "variables p \<noteq> []" and "\<not> lp_make_null e" and "throws e Alloc_row = None"
    and "\<forall>i. throws e (Alloc_pairs i) = None"
    and "fill_row (objective p) (replicate (length (variables p) + 1) 0) = Some row"
  shows "\<exists>w5. translate e p w = Next w5 \<and> result w5 = result w \<and> log w5 = log w
       \<and> filter is_objective_call (calls w5)
           = filter is_objective_call (calls w) @ [Set_obj_fn row]
       \<and> filter is_row_call (calls w5)
           = filter is_row_call (calls w) @ concat (map constraint_rows (constraints p))"
proof -
  let ?w3 = "create_variables (variables p) 0
      (call (Set_verbose SEVERE) (call (Make_lp 0 (int_of_size_t (length (variables p)))) w))"
  let ?w4 = "call (Set_obj_fn row) ?w3"
  let ?w5 = "?w4\<lparr>calls := calls ?w4 @
        [Get_Ncolumns,
         Resize_lp (int_of_size_t (length (constraints p))) (lp_Ncolumns e (calls ?w4)),
         Set_add_rowmode True]
        @ concat (map constraint_rows (constraints p)) @ [Set_add_rowmode False]\<rparr>"
  have obj: "set_objective e p ?w3 = Next ?w4"
    using assms(3,5) by (simp add: set_objective_def)
  have rows: "add_rows e p ?w4 = Next ?w5"
    using assms(4) by (rule add_rows_no_throw)
  have t: "translate e p w = Next ?w5"
    using assms(1,2) obj rows by (simp add: translate_def Let_def and_then_def)
  have keep: "result ?w3 = result w" "log ?w3 = log w"
    by (simp_all add: create_variables_keeps call_def)
  have c3: "filter is_row_call (calls ?w3) = filter is_row_call (calls w)"
    "filter is_objective_call (calls ?w3) = filter is_objective_call (calls w)"
    by (simp_all add: create_variables_calls call_def)
  have "filter is_objective_call (calls ?w5)
      = filter is_objective_call (calls w) @ [Set_obj_fn row]"
    using c3 by (simp add: call_def constraint_rows_are_rows)
  moreover have "filter is_row_call (calls ?w5)
      = filter is_row_call (calls w) @ concat (map constraint_rows (constraints p))"
    using c3 by (simp add: call_def constraint_rows_are_rows)
  moreover have "result ?w5 = result w" "log ?w5 = log w"
    using keep by (simp_all add: call_def)
  ultimately show ?thesis using t by blast
qed

lemma report_calls:
  "\<exists>w'. catch_and_return (and_then (solve_and_report e n w5)
            (\<lambda>w6. Next (call Delete_lp w6))) = Some (False, w')
     \<and> filter is_objective_call (calls w') = filter is_objective_call (calls w5)
     \<and> filter is_row_call (calls w') = filter is_row_call (calls w5)"
  by (auto simp: solve_and_report_def handle_status_def and_then_def catch_and_return_def
      call_def write_log_def Let_def split: option.splits thrown.splits)

lemma solve_no_throw:
  assumes "variables p \<noteq> []" and "\<not> lp_make_null e" and "throws e Alloc_row = None"
    and "\<forall>i. throws e (Alloc_pairs i) = None"
    and "fill_row (objective p) (replicate (length (variables p) + 1) 0) = Some row"
  shows "\<exists>w'. solve_LPSOLVE e p w = Some (False, w')
       \<and> filter is_objective_call (calls w')
           = filter is_objective_call (calls w) @ [Set_obj_fn row]
       \<and> filter is_row_call (calls w')
           = filter is_row_call (calls w) @ concat (map constraint_rows (constraints p))"
proof -
  obtain w5 where w5: "translate e p w = Next w5"
    "filter is_objective_call (calls w5) = filter is_objective_call (calls w) @ [Set_obj_fn row]"
    "filter is_row_call (calls w5)
       = filter is_row_call (calls w) @ concat (map constraint_rows (constraints p))"
    using translate_no_throw [OF assms, of w] by blast
  obtain w' where w': "catch_and_return (and_then (solve_and_report e (length (variables p)) w5)
            (\<lambda>w6. Next (call Delete_lp w6))) = Some (False, w')"
    "filter is_objective_call (calls w') = filter is_objective_call (calls w5)"
    "filter is_row_call (calls w') = filter is_row_call (calls w5)"
    using report_calls [of e "length (variables p)" w5] by blast
  have "solve_LPSOLVE e p w = Some (False, w')"
    using w5(1) w'(1) by (simp add: solve_LPSOLVE_def try_block_def and_then_def)
  then show ?thesis using w5(2,3) w'(2,3) by simp
qed

lemma constraint_rows_sums:
  assumes "\<forall>k\<in>fst ` set (coefficients c). k < n" and "n < 2 ^ 31"
    and "Add_constraintex count sparserow colno sense rhs \<in> set (constraint_rows c)"
  shows "sparse_sum colno sparserow x = map_sum (coefficients c) x"
proof -
  have "colno = map (\<lambda>(k, c). column_of k) (coefficients c)
      \<and> sparserow = map snd (coefficients c)"
    using assms(3)
    by (auto simp: constraint_rows_def collect_pairs_eq Let_def split: bound_type.splits)
  then show ?thesis using sparse_sum_pairs [OF assms(1,2)] by simp
qed

lemma objective_order:
  assumes "\<And>w3. set_objective e (p\<lparr>objective := m'\<rparr>) w3 = set_objective e p w3"
  shows "solve_LPSOLVE e (p\<lparr>objective := m'\<rparr>) w = solve_LPSOLVE e p w"
proof -
  have "add_rows e (p\<lparr>objective := m'\<rparr>) = add_rows e p"
    by (rule ext) (simp add: add_rows_def)
  then have "translate e (p\<lparr>objective := m'\<rparr>) w = translate e p w"
    using assms by (simp add: translate_def Let_def)
  then show ?thesis by (simp add: solve_LPSOLVE_def try_block_def)
qed

section \<open>Rows keep the coefficients\<close>

text \<open>
  C7. Let \<open>m\<close> be a coefficient map with distinct keys, all of them indices of
  variables (below the variable count \<open>n\<close>, which fits the engine's \<^verbatim>\<open>int\<close>), and let
  \<open>m'\<close> be the same map visited in another order. The dense objective row built from
  a zero row of size \<open>n + 1\<close> is the same for both orders, and the sum the engine reads
  from it (position \<open>i + 1\<close> times the value of variable \<open>i\<close>) is the sum taken over the
  entries of the map, for every assignment \<open>x\<close>. The sparse column and coefficient lists
  of a constraint give that same sum, in either order. This is so for the row that
  \<^verbatim>\<open>set_obj_fn\<close> receives when \<open>m\<close> is the objective of a program with \<open>n\<close> variables,
  for every row that \<^verbatim>\<open>add_constraintex\<close> receives for a constraint with the map \<open>m\<close>
  or \<open>m'\<close>, and for the whole function: it hands over one objective row, whose sum is
  that of the objective, and the rows of the constraints, each with the sum of its
  constraint's map; visiting the objective in the other order changes nothing in the run.
  Coefficients are real numbers here: the function copies them and does no arithmetic on
  them.
\<close>

theorem translation_preserves_coefficients:
  assumes "distinct (map fst m)" and "distinct (map fst m')" and "set m' = set m"
    and "\<forall>k\<in>fst ` set m. k < n" and "n < 2 ^ 31"
  shows "(\<exists>row. fill_row m (replicate (n + 1) 0) = Some row
              \<and> fill_row m' (replicate (n + 1) 0) = Some row
              \<and> dense_sum row x = map_sum m x)
       \<and> sparse_sum (fst (collect_pairs m ([], []))) (snd (collect_pairs m ([], []))) x
           = map_sum m x
       \<and> sparse_sum (fst (collect_pairs m' ([], []))) (snd (collect_pairs m' ([], []))) x
           = map_sum m x
       \<and> (objective p = m \<and> length (variables p) = n \<and> throws e Alloc_row = None \<longrightarrow>
            (\<exists>row. set_objective e p w = Next (call (Set_obj_fn row) w)
                 \<and> set_objective e (p\<lparr>objective := m'\<rparr>) w = Next (call (Set_obj_fn row) w)
                 \<and> dense_sum row x = map_sum m x))
       \<and> (coefficients cstr = m \<or> coefficients cstr = m' \<longrightarrow>
            (\<forall>count sparserow colno sense rhs.
               Add_constraintex count sparserow colno sense rhs \<in> set (constraint_rows cstr) \<longrightarrow>
               sparse_sum colno sparserow x = map_sum m x))
       \<and> (variables p \<noteq> [] \<and> \<not> lp_make_null e \<and> objective p = m
            \<and> length (variables p) = n \<and> throws e Alloc_row = None
            \<and> (\<forall>i. throws e (Alloc_pairs i) = None)
            \<and> (\<forall>c\<in>set (constraints p). \<forall>k\<in>fst ` set (coefficients c). k < n) \<longrightarrow>
            (\<exists>row w'. solve_LPSOLVE e p w = Some (False, w')
               \<and> solve_LPSOLVE e (p\<lparr>objective := m'\<rparr>) w = Some (False, w')
               \<and> filter is_objective_call (calls w')
                   = filter is_objective_call (calls w) @ [Set_obj_fn row]
               \<and> dense_sum row x = map_sum m x
               \<and> filter is_row_call (calls w')
                   = filter is_row_call (calls w) @ concat (map constraint_rows (constraints p))
               \<and> (\<forall>c\<in>set (constraints p). \<forall>count sparserow colno sense rhs.
                     Add_constraintex count sparserow colno sense rhs \<in> set (constraint_rows c) \<longrightarrow>
                     sparse_sum colno sparserow x = map_sum (coefficients c) x)))"
proof -
  let ?zero = "replicate (n + 1) (0::real)"
  have keys': "\<forall>k\<in>fst ` set m'. k < n" using assms(3,4) by simp
  obtain row where row: "fill_row m ?zero = Some row" "length row = n + 1" "row ! 0 = ?zero ! 0"
    "\<forall>i<n. row ! (i + 1) = (case map_of m i of Some c \<Rightarrow> c | None \<Rightarrow> ?zero ! (i + 1))"
    using fill_row_in_range [OF assms(1,4,5), of ?zero] by auto
  obtain row' where row': "fill_row m' ?zero = Some row'" "length row' = n + 1"
    "row' ! 0 = ?zero ! 0"
    "\<forall>i<n. row' ! (i + 1) = (case map_of m' i of Some c \<Rightarrow> c | None \<Rightarrow> ?zero ! (i + 1))"
    using fill_row_in_range [OF assms(2) keys' assms(5), of ?zero] by auto
  have same_map: "map_of m' = map_of m"
    using assms(1,2,3) by (simp add: map_of_inject_set)
  have "row' = row"
  proof (rule nth_equalityI)
    show "length row' = length row" using row(2) row'(2) by simp
  next
    fix j assume "j < length row'"
    then have j: "j < n + 1" using row'(2) by simp
    show "row' ! j = row ! j"
    proof (cases j)
      case 0
      then show ?thesis using row(3) row'(3) by simp
    next
      case (Suc i)
      then have "i < n" using j by simp
      then show ?thesis using row(4) row'(4) same_map Suc by simp
    qed
  qed
  then have fill': "fill_row m' ?zero = Some row" using row'(1) by simp
  have dsum: "dense_sum row x = map_sum m x"
  proof -
    have "dense_sum row x = (\<Sum>i<n. row ! (i + 1) * x i)"
      using row(2) by (rule dense_sum_shift)
    also have "\<dots> = (\<Sum>i<n. (case map_of m i of Some c \<Rightarrow> c | None \<Rightarrow> 0) * x i)"
      by (rule sum.cong) (use row(4) in \<open>auto split: option.splits\<close>)
    also have "\<dots> = map_sum m x"
      using assms(1,4) by (rule coefficient_sum)
    finally show ?thesis .
  qed
  have dense: "\<exists>row. fill_row m ?zero = Some row \<and> fill_row m' ?zero = Some row
      \<and> dense_sum row x = map_sum m x"
    using row(1) fill' dsum by blast
  have order: "map_sum m' x = map_sum m x"
    using map_sum_order [OF assms(1,2,3)] .
  have sparse: "sparse_sum (fst (collect_pairs m ([], []))) (snd (collect_pairs m ([], []))) x
      = map_sum m x"
    using sparse_sum_pairs [OF assms(4,5)] by (simp add: collect_pairs_eq)
  have sparse': "sparse_sum (fst (collect_pairs m' ([], []))) (snd (collect_pairs m' ([], []))) x
      = map_sum m x"
    using sparse_sum_pairs [OF keys' assms(5)] order by (simp add: collect_pairs_eq)
  have obj: "\<exists>row. set_objective e p w = Next (call (Set_obj_fn row) w)
                 \<and> set_objective e (p\<lparr>objective := m'\<rparr>) w = Next (call (Set_obj_fn row) w)
                 \<and> dense_sum row x = map_sum m x"
    if "objective p = m" "length (variables p) = n" "throws e Alloc_row = None"
    using that row(1) fill' dsum by (auto simp: set_objective_def)
  have rows: "sparse_sum colno sparserow x = map_sum m x"
    if "coefficients cstr = m \<or> coefficients cstr = m'"
      "Add_constraintex count sparserow colno sense rhs \<in> set (constraint_rows cstr)"
    for count sparserow colno sense rhs
  proof -
    have "\<forall>k\<in>fst ` set (coefficients cstr). k < n"
      using that(1) assms(4) keys' by auto
    then have "sparse_sum colno sparserow x = map_sum (coefficients cstr) x"
      using assms(5) that(2) by (rule constraint_rows_sums)
    then show ?thesis using that(1) order by auto
  qed
  have whole: "\<exists>row w'. solve_LPSOLVE e p w = Some (False, w')
               \<and> solve_LPSOLVE e (p\<lparr>objective := m'\<rparr>) w = Some (False, w')
               \<and> filter is_objective_call (calls w')
                   = filter is_objective_call (calls w) @ [Set_obj_fn row]
               \<and> dense_sum row x = map_sum m x
               \<and> filter is_row_call (calls w')
                   = filter is_row_call (calls w) @ concat (map constraint_rows (constraints p))
               \<and> (\<forall>c\<in>set (constraints p). \<forall>count sparserow colno sense rhs.
                     Add_constraintex count sparserow colno sense rhs \<in> set (constraint_rows c) \<longrightarrow>
                     sparse_sum colno sparserow x = map_sum (coefficients c) x)"
    if a: "variables p \<noteq> []" "\<not> lp_make_null e" "objective p = m"
      "length (variables p) = n" "throws e Alloc_row = None"
      "\<forall>i. throws e (Alloc_pairs i) = None"
      "\<forall>c\<in>set (constraints p). \<forall>k\<in>fst ` set (coefficients c). k < n"
  proof -
    have fr: "fill_row (objective p) (replicate (length (variables p) + 1) 0) = Some row"
      using row(1) a(3,4) by simp
    obtain w' where w': "solve_LPSOLVE e p w = Some (False, w')"
      "filter is_objective_call (calls w')
         = filter is_objective_call (calls w) @ [Set_obj_fn row]"
      "filter is_row_call (calls w')
         = filter is_row_call (calls w) @ concat (map constraint_rows (constraints p))"
      using solve_no_throw [OF a(1,2,5,6) fr, of w] by blast
    have "set_objective e (p\<lparr>objective := m'\<rparr>) w3 = set_objective e p w3" for w3
      using a(3,4,5) row(1) fill' by (simp add: set_objective_def)
    then have same: "solve_LPSOLVE e (p\<lparr>objective := m'\<rparr>) w = solve_LPSOLVE e p w"
      by (rule objective_order)
    have sums: "\<forall>c\<in>set (constraints p). \<forall>count sparserow colno sense rhs.
        Add_constraintex count sparserow colno sense rhs \<in> set (constraint_rows c) \<longrightarrow>
        sparse_sum colno sparserow x = map_sum (coefficients c) x"
    proof (intro ballI allI impI)
      fix c count sparserow colno sense rhs
      assume c: "c \<in> set (constraints p)"
        and r: "Add_constraintex count sparserow colno sense rhs \<in> set (constraint_rows c)"
      have "\<forall>k\<in>fst ` set (coefficients c). k < n" using a(7) c by (rule bspec)
      then show "sparse_sum colno sparserow x = map_sum (coefficients c) x"
        using assms(5) r by (rule constraint_rows_sums)
    qed
    have s2: "solve_LPSOLVE e (p\<lparr>objective := m'\<rparr>) w = Some (False, w')"
      using same w'(1) by simp
    show ?thesis
      apply (rule exI [of _ row], rule exI [of _ w'], intro conjI)
           apply (rule w'(1))
          apply (rule s2)
         apply (rule w'(2))
        apply (rule dsum)
       apply (rule w'(3))
      apply (rule sums)
      done
  qed
  have c4: "objective p = m \<and> length (variables p) = n \<and> throws e Alloc_row = None \<longrightarrow>
            (\<exists>row. set_objective e p w = Next (call (Set_obj_fn row) w)
                 \<and> set_objective e (p\<lparr>objective := m'\<rparr>) w = Next (call (Set_obj_fn row) w)
                 \<and> dense_sum row x = map_sum m x)"
    using obj by (intro impI) (elim conjE)
  have c5: "coefficients cstr = m \<or> coefficients cstr = m' \<longrightarrow>
            (\<forall>count sparserow colno sense rhs.
               Add_constraintex count sparserow colno sense rhs \<in> set (constraint_rows cstr) \<longrightarrow>
               sparse_sum colno sparserow x = map_sum m x)"
    using rows by (intro impI allI)
  show ?thesis
    apply (intro conjI)
         apply (rule dense)
        apply (rule sparse)
       apply (rule sparse')
      apply (rule c4)
     apply (rule c5)
    apply (intro impI, elim conjE)
    apply (rule whole; assumption)
    done
qed

theorem translation_preserves_coefficients_witness:
  "(\<exists>row. fill_row [(0, 2), (1, 5)] (replicate 3 0) = Some row
        \<and> fill_row [(1, 5), (0, 2)] (replicate 3 0) = Some row
        \<and> dense_sum row (\<lambda>i. if i = 0 then 3 else 4) = 26)
   \<and> sparse_sum (fst (collect_pairs [(0, 2), (1, 5)] ([], [])))
        (snd (collect_pairs [(0, 2), (1, 5)] ([], []))) (\<lambda>i. if i = 0 then 3 else 4) = 26
   \<and> sparse_sum (fst (collect_pairs [(1, 5), (0, 2)] ([], [])))
        (snd (collect_pairs [(1, 5), (0, 2)] ([], []))) (\<lambda>i. if i = 0 then 3 else 4) = 26
   \<and> (\<exists>row w'. solve_LPSOLVE (engine_answering 2 0 (\<lambda>j. 0))
          \<lparr>variables = [unit_variable CONTINUOUS, unit_variable CONTINUOUS],
           objective = [(0, 2), (1, 5)],
           constraints = [\<lparr>coefficients = [(1, 5), (0, 2)], cstr_bound_type = UPPER,
                           cstr_bound = 30, cstr_lb = 0, cstr_ub = 0\<rparr>]\<rparr> fresh
          = Some (False, w')
        \<and> solve_LPSOLVE (engine_answering 2 0 (\<lambda>j. 0))
          \<lparr>variables = [unit_variable CONTINUOUS, unit_variable CONTINUOUS],
           objective = [(1, 5), (0, 2)],
           constraints = [\<lparr>coefficients = [(1, 5), (0, 2)], cstr_bound_type = UPPER,
                           cstr_bound = 30, cstr_lb = 0, cstr_ub = 0\<rparr>]\<rparr> fresh
          = Some (False, w')
        \<and> filter is_objective_call (calls w') = [Set_obj_fn row]
        \<and> dense_sum row (\<lambda>i. if i = 0 then 3 else 4) = 26
        \<and> filter is_row_call (calls w') = [Add_constraintex 2 [5, 2] [2, 1] LE 30]
        \<and> sparse_sum [2, 1] [5, 2] (\<lambda>i. if i = 0 then 3 else 4) = 26)"
proof -
  let ?e = "engine_answering 2 0 (\<lambda>j. 0)"
  let ?c = "\<lparr>coefficients = [(1::nat, 5::real), (0, 2)], cstr_bound_type = UPPER,
             cstr_bound = 30, cstr_lb = 0, cstr_ub = 0\<rparr>"
  let ?p = "\<lparr>variables = [unit_variable CONTINUOUS, unit_variable CONTINUOUS],
           objective = [(0, 2), (1, 5)], constraints = [?c]\<rparr>"
  let ?x = "\<lambda>i::nat. if i = 0 then 3 else (4::real)"
  have d: "distinct (map fst [(0::nat, 2::real), (1, 5)])"
    and d': "distinct (map fst [(1::nat, 5::real), (0, 2)])"
    and s: "set [(1::nat, 5::real), (0, 2)] = set [(0, 2), (1, 5)]"
    and k: "\<forall>k\<in>fst ` set [(0::nat, 2::real), (1, 5)]. k < 2"
    and n: "(2::nat) < 2 ^ 31"
    by auto
  note t = translation_preserves_coefficients [OF d d' s k n, of ?x ?p ?e fresh ?c]
  have v: "map_sum [(0, 2), (1, 5)] ?x = 26" by (simp add: map_sum_def)
  have t1: "\<exists>row. fill_row [(0, 2), (1, 5)] (replicate 3 0) = Some row
        \<and> fill_row [(1, 5), (0, 2)] (replicate 3 0) = Some row
        \<and> dense_sum row ?x = 26"
    using t [THEN conjunct1] v by simp
  have t2: "sparse_sum (fst (collect_pairs [(0, 2), (1, 5)] ([], [])))
        (snd (collect_pairs [(0, 2), (1, 5)] ([], []))) ?x = 26"
    using t [THEN conjunct2, THEN conjunct1] v by simp
  have t3: "sparse_sum (fst (collect_pairs [(1, 5), (0, 2)] ([], [])))
        (snd (collect_pairs [(1, 5), (0, 2)] ([], []))) ?x = 26"
    using t [THEN conjunct2, THEN conjunct2, THEN conjunct1] v by simp
  have hyp: "variables ?p \<noteq> [] \<and> \<not> lp_make_null ?e \<and> objective ?p = [(0, 2), (1, 5)]
      \<and> length (variables ?p) = 2 \<and> throws ?e Alloc_row = None
      \<and> (\<forall>i. throws ?e (Alloc_pairs i) = None)
      \<and> (\<forall>c\<in>set (constraints ?p). \<forall>k\<in>fst ` set (coefficients c). k < 2)"
    by (simp add: engine_answering_def)
  have "\<exists>row w'. solve_LPSOLVE ?e ?p fresh = Some (False, w')
      \<and> solve_LPSOLVE ?e (?p\<lparr>objective := [(1, 5), (0, 2)]\<rparr>) fresh = Some (False, w')
      \<and> filter is_objective_call (calls w')
          = filter is_objective_call (calls fresh) @ [Set_obj_fn row]
      \<and> dense_sum row ?x = map_sum [(0, 2), (1, 5)] ?x
      \<and> filter is_row_call (calls w')
          = filter is_row_call (calls fresh) @ concat (map constraint_rows (constraints ?p))
      \<and> (\<forall>c\<in>set (constraints ?p). \<forall>count sparserow colno sense rhs.
            Add_constraintex count sparserow colno sense rhs \<in> set (constraint_rows c) \<longrightarrow>
            sparse_sum colno sparserow ?x = map_sum (coefficients c) ?x)"
    using t [THEN conjunct2, THEN conjunct2, THEN conjunct2, THEN conjunct2, THEN conjunct2] hyp
    by (rule mp)
  then obtain row w' where w: "solve_LPSOLVE ?e ?p fresh = Some (False, w')"
    "solve_LPSOLVE ?e (?p\<lparr>objective := [(1, 5), (0, 2)]\<rparr>) fresh = Some (False, w')"
    "filter is_objective_call (calls w')
       = filter is_objective_call (calls fresh) @ [Set_obj_fn row]"
    "dense_sum row ?x = map_sum [(0, 2), (1, 5)] ?x"
    "filter is_row_call (calls w')
       = filter is_row_call (calls fresh) @ concat (map constraint_rows (constraints ?p))"
    "\<forall>c\<in>set (constraints ?p). \<forall>count sparserow colno sense rhs.
        Add_constraintex count sparserow colno sense rhs \<in> set (constraint_rows c) \<longrightarrow>
        sparse_sum colno sparserow ?x = map_sum (coefficients c) ?x"
    by (elim exE conjE)
  have rows: "constraint_rows ?c = [Add_constraintex 2 [5, 2] [2, 1] LE 30]"
    by (simp add: constraint_rows_def int_of_size_t_def succ_size_t_def)
  have "sparse_sum [2, 1] [5, 2] ?x = map_sum (coefficients ?c) ?x"
    using w(6) rows by simp
  then have sp: "sparse_sum [2, 1] [5, 2] ?x = 26" by (simp add: map_sum_def)
  have o: "filter is_objective_call (calls w') = [Set_obj_fn row]"
    using w(3) by (simp add: fresh_def)
  have r: "filter is_row_call (calls w') = [Add_constraintex 2 [5, 2] [2, 1] LE 30]"
    using w(5) rows by (simp add: fresh_def)
  have w2: "solve_LPSOLVE ?e
      \<lparr>variables = [unit_variable CONTINUOUS, unit_variable CONTINUOUS],
       objective = [(1, 5), (0, 2)], constraints = [?c]\<rparr> fresh = Some (False, w')"
    using w(2) by simp
  have ds: "dense_sum row ?x = 26" using w(4) v by simp
  have t4: "\<exists>row w'. solve_LPSOLVE ?e ?p fresh = Some (False, w')
        \<and> solve_LPSOLVE ?e
            \<lparr>variables = [unit_variable CONTINUOUS, unit_variable CONTINUOUS],
             objective = [(1, 5), (0, 2)], constraints = [?c]\<rparr> fresh = Some (False, w')
        \<and> filter is_objective_call (calls w') = [Set_obj_fn row]
        \<and> dense_sum row ?x = 26
        \<and> filter is_row_call (calls w') = [Add_constraintex 2 [5, 2] [2, 1] LE 30]
        \<and> sparse_sum [2, 1] [5, 2] ?x = 26"
    apply (rule exI [of _ row], rule exI [of _ w'], intro conjI)
         apply (rule w(1))
        apply (rule w2)
       apply (rule o)
      apply (rule ds)
     apply (rule r)
    apply (rule sp)
    done
  show ?thesis
    apply (intro conjI)
       apply (rule t1)
      apply (rule t2)
     apply (rule t3)
    apply (rule t4)
    done
qed

section \<open>Rows of a constraint\<close>

text \<open>
  C6. The rows added for a constraint follow its bound type: \<open>FIXED\<close> gives one row
  with \<open>EQ\<close> and the bound, \<open>LOWER\<close> one row with \<open>GE\<close>, \<open>UPPER\<close> one row with
  \<open>LE\<close>, and \<open>DOUBLE\<close> two rows with the same column numbers and coefficients, the
  first with \<open>GE\<close> and the lower bound, the second with \<open>LE\<close> and the upper bound.
  When no allocation throws, the loop appends the rows of the constraints in the order of
  the constraints, between the two calls of \<^verbatim>\<open>set_add_rowmode\<close>. For a program with
  variables, a handle that is not null and an objective that stays inside its row, the
  whole function returns, and the rows it has added by then are exactly the rows of the
  program's constraints, in the order of the constraints.
\<close>

theorem constraint_rows_follow_bound_type:
  fixes cstr :: linear_constraint
  shows "(let colno = map (\<lambda>(var_idx, coeff). column_of var_idx) (coefficients cstr);
           sparserow = map snd (coefficients cstr);
           count = int_of_size_t (length (coefficients cstr));
           row = Add_constraintex count sparserow colno
       in (cstr_bound_type cstr = FIXED \<longrightarrow> constraint_rows cstr = [row EQ (cstr_bound cstr)])
        \<and> (cstr_bound_type cstr = LOWER \<longrightarrow> constraint_rows cstr = [row GE (cstr_bound cstr)])
        \<and> (cstr_bound_type cstr = UPPER \<longrightarrow> constraint_rows cstr = [row LE (cstr_bound cstr)])
        \<and> (cstr_bound_type cstr = DOUBLE \<longrightarrow>
              constraint_rows cstr = [row GE (cstr_lb cstr), row LE (cstr_ub cstr)]))
     \<and> ((\<forall>i. throws e (Alloc_pairs i) = None) \<longrightarrow>
          add_constraints e cs k w =
            Next (w\<lparr>calls := calls w @ concat (map constraint_rows cs)\<rparr>))
     \<and> ((\<forall>i. throws e (Alloc_pairs i) = None) \<longrightarrow>
          add_rows e p w =
            Next (w\<lparr>calls := calls w @
              [Get_Ncolumns,
               Resize_lp (int_of_size_t (length (constraints p))) (lp_Ncolumns e (calls w)),
               Set_add_rowmode True]
              @ concat (map constraint_rows (constraints p)) @ [Set_add_rowmode False]\<rparr>))
     \<and> (variables p \<noteq> [] \<and> \<not> lp_make_null e \<and> throws e Alloc_row = None
          \<and> (\<forall>i. throws e (Alloc_pairs i) = None)
          \<and> fill_row (objective p) (replicate (length (variables p) + 1) 0) \<noteq> None \<longrightarrow>
          (\<exists>w5. translate e p w = Next w5
             \<and> filter is_row_call (calls w5)
                 = filter is_row_call (calls w) @ concat (map constraint_rows (constraints p)))
          \<and> (\<exists>w'. solve_LPSOLVE e p w = Some (False, w')
             \<and> filter is_row_call (calls w')
                 = filter is_row_call (calls w) @ concat (map constraint_rows (constraints p))))"
proof -
  have whole: "(\<exists>w5. translate e p w = Next w5
             \<and> filter is_row_call (calls w5)
                 = filter is_row_call (calls w) @ concat (map constraint_rows (constraints p)))
          \<and> (\<exists>w'. solve_LPSOLVE e p w = Some (False, w')
             \<and> filter is_row_call (calls w')
                 = filter is_row_call (calls w) @ concat (map constraint_rows (constraints p)))"
    if a: "variables p \<noteq> []" "\<not> lp_make_null e" "throws e Alloc_row = None"
      "\<forall>i. throws e (Alloc_pairs i) = None"
      "fill_row (objective p) (replicate (length (variables p) + 1) 0) \<noteq> None"
  proof -
    obtain row where row: "fill_row (objective p) (replicate (length (variables p) + 1) 0) = Some row"
      using a(5) by blast
    show ?thesis
      using translate_no_throw [OF a(1-4) row, of w] solve_no_throw [OF a(1-4) row, of w]
      by blast
  qed
  show ?thesis
    using whole
    by (simp add: constraint_rows_def collect_pairs_eq Let_def add_constraints_no_throw
        add_rows_no_throw)
qed

theorem constraint_rows_follow_bound_type_witness:
  "add_constraints (engine_answering 3 0 (\<lambda>j. 0))
     [example_constraint FIXED, example_constraint LOWER, example_constraint UPPER,
      example_constraint DOUBLE] 0 fresh
   = Next (fresh\<lparr>calls :=
       [Add_constraintex 2 [1, 3] [1, 3] EQ 5,
        Add_constraintex 2 [1, 3] [1, 3] GE 5,
        Add_constraintex 2 [1, 3] [1, 3] LE 5,
        Add_constraintex 2 [1, 3] [1, 3] GE 1,
        Add_constraintex 2 [1, 3] [1, 3] LE 9]\<rparr>)
   \<and> (\<exists>w'. solve_LPSOLVE (engine_answering 3 0 (\<lambda>j. 0))
          \<lparr>variables = [unit_variable CONTINUOUS, unit_variable CONTINUOUS,
                        unit_variable CONTINUOUS],
           objective = [(0, 1)],
           constraints = [example_constraint FIXED, example_constraint LOWER,
                          example_constraint UPPER, example_constraint DOUBLE]\<rparr> fresh
          = Some (False, w')
        \<and> filter is_row_call (calls w') =
            [Add_constraintex 2 [1, 3] [1, 3] EQ 5,
             Add_constraintex 2 [1, 3] [1, 3] GE 5,
             Add_constraintex 2 [1, 3] [1, 3] LE 5,
             Add_constraintex 2 [1, 3] [1, 3] GE 1,
             Add_constraintex 2 [1, 3] [1, 3] LE 9])"
proof -
  let ?e = "engine_answering 3 0 (\<lambda>j. 0)"
  let ?cs = "[example_constraint FIXED, example_constraint LOWER, example_constraint UPPER,
      example_constraint DOUBLE]"
  let ?p = "\<lparr>variables = [unit_variable CONTINUOUS, unit_variable CONTINUOUS,
                        unit_variable CONTINUOUS],
           objective = [(0, 1)], constraints = ?cs\<rparr>"
  let ?q = "\<lparr>variables = [], objective = [], constraints = []\<rparr>"
  note t = constraint_rows_follow_bound_type [of "example_constraint FIXED" ?e ?cs 0 fresh ?p]
  have fixed: "constraint_rows (example_constraint FIXED) = [Add_constraintex 2 [1, 3] [1, 3] EQ 5]"
    using t [THEN conjunct1]
    by (simp add: example_constraint_def column_of_def succ_size_t_def int_of_size_t_def Let_def)
  have lower: "constraint_rows (example_constraint LOWER) = [Add_constraintex 2 [1, 3] [1, 3] GE 5]"
    using constraint_rows_follow_bound_type
        [of "example_constraint LOWER" ?e "[]" 0 fresh ?q, THEN conjunct1]
    by (simp add: example_constraint_def column_of_def succ_size_t_def int_of_size_t_def Let_def)
  have upper: "constraint_rows (example_constraint UPPER) = [Add_constraintex 2 [1, 3] [1, 3] LE 5]"
    using constraint_rows_follow_bound_type
        [of "example_constraint UPPER" ?e "[]" 0 fresh ?q, THEN conjunct1]
    by (simp add: example_constraint_def column_of_def succ_size_t_def int_of_size_t_def Let_def)
  have double: "constraint_rows (example_constraint DOUBLE)
      = [Add_constraintex 2 [1, 3] [1, 3] GE 1, Add_constraintex 2 [1, 3] [1, 3] LE 9]"
    using constraint_rows_follow_bound_type
        [of "example_constraint DOUBLE" ?e "[]" 0 fresh ?q, THEN conjunct1]
    by (simp add: example_constraint_def column_of_def succ_size_t_def int_of_size_t_def Let_def)
  have quiet: "\<forall>i. throws ?e (Alloc_pairs i) = None"
    by (simp add: engine_answering_def)
  have loop: "add_constraints ?e ?cs 0 fresh
      = Next (fresh\<lparr>calls := calls fresh @ concat (map constraint_rows ?cs)\<rparr>)"
    using t [THEN conjunct2, THEN conjunct1] quiet by (rule mp)
  have hyp: "variables ?p \<noteq> [] \<and> \<not> lp_make_null ?e \<and> throws ?e Alloc_row = None
      \<and> (\<forall>i. throws ?e (Alloc_pairs i) = None)
      \<and> fill_row (objective ?p) (replicate (length (variables ?p) + 1) 0) \<noteq> None"
    by (simp add: engine_answering_def succ_size_t_def)
  have "\<exists>w'. solve_LPSOLVE ?e ?p fresh = Some (False, w')
      \<and> filter is_row_call (calls w')
          = filter is_row_call (calls fresh) @ concat (map constraint_rows (constraints ?p))"
    using t [THEN conjunct2, THEN conjunct2, THEN conjunct2] hyp by (rule mp [THEN conjunct2])
  then have whole: "\<exists>w'. solve_LPSOLVE ?e ?p fresh = Some (False, w')
      \<and> filter is_row_call (calls w') =
            [Add_constraintex 2 [1, 3] [1, 3] EQ 5,
             Add_constraintex 2 [1, 3] [1, 3] GE 5,
             Add_constraintex 2 [1, 3] [1, 3] LE 5,
             Add_constraintex 2 [1, 3] [1, 3] GE 1,
             Add_constraintex 2 [1, 3] [1, 3] LE 9]"
    using fixed lower upper double by (simp add: fresh_def)
  show ?thesis using loop whole fixed lower upper double by (simp add: fresh_def)
qed

section \<open>A constraint of another bound type\<close>

text \<open>
  C10. A constraint whose bound type is none of \<open>FIXED\<close>, \<open>LOWER\<close>, \<open>UPPER\<close>,
  \<open>DOUBLE\<close> adds no row, and the loop goes on with the constraints after it as if it
  were absent. Nothing is logged for it: when no allocation of the loop throws and the
  engine's answers do not depend on the row count announced to \<^verbatim>\<open>resize_lp\<close>, the value
  returned, the result vector, the log and the calls other than \<^verbatim>\<open>resize_lp\<close> are the
  same with and without that constraint.
\<close>

theorem unknown_bound_type_adds_no_row:
  assumes "cstr_bound_type c \<notin> {FIXED, LOWER, UPPER, DOUBLE}"
    and "\<forall>i. throws e (Alloc_pairs i) = None"
    and "\<forall>cs. lp_solve e cs = lp_solve e (problem_calls cs)"
    and "\<forall>cs. lp_variables e cs = lp_variables e (problem_calls cs)"
  shows "constraint_rows c = []
       \<and> add_constraints e (before @ c # after) i w = add_constraints e (before @ after) i w
       \<and> outcome (solve_LPSOLVE e (p\<lparr>constraints := before @ c # after\<rparr>) w)
           = outcome (solve_LPSOLVE e (p\<lparr>constraints := before @ after\<rparr>) w)"
proof -
  let ?p1 = "p\<lparr>constraints := before @ c # after\<rparr>"
  let ?p2 = "p\<lparr>constraints := before @ after\<rparr>"
  let ?tail = "\<lambda>n w5. and_then (solve_and_report e n w5) (\<lambda>w6. Next (call Delete_lp w6))"
  have none: "cstr_bound_type c = NONE"
    using assms(1) by (cases "cstr_bound_type c") auto
  then have rows: "constraint_rows c = []"
    by (simp add: constraint_rows_def Let_def split: prod.splits)
  have loop: "add_constraints e (before @ c # after) i w = add_constraints e (before @ after) i w"
    using assms(2) rows by (simp add: add_constraints_no_throw)
  have tail: "outcome (catch_and_return (and_then (add_rows e ?p1 w4) (?tail n)))
      = outcome (catch_and_return (and_then (add_rows e ?p2 w4) (?tail n)))" for w4 n
  proof -
    let ?w1 = "w4\<lparr>calls := calls w4 @
        [Get_Ncolumns,
         Resize_lp (int_of_size_t (length (constraints ?p1))) (lp_Ncolumns e (calls w4)),
         Set_add_rowmode True]
        @ concat (map constraint_rows (constraints ?p1)) @ [Set_add_rowmode False]\<rparr>"
    let ?w2 = "w4\<lparr>calls := calls w4 @
        [Get_Ncolumns,
         Resize_lp (int_of_size_t (length (constraints ?p2))) (lp_Ncolumns e (calls w4)),
         Set_add_rowmode True]
        @ concat (map constraint_rows (constraints ?p2)) @ [Set_add_rowmode False]\<rparr>"
    have a1: "add_rows e ?p1 w4 = Next ?w1" using assms(2) by (rule add_rows_no_throw)
    have a2: "add_rows e ?p2 w4 = Next ?w2" using assms(2) by (rule add_rows_no_throw)
    have same: "problem_calls (calls ?w1) = problem_calls (calls ?w2)"
      using rows by (simp add: problem_calls_def)
    have "outcome (catch_and_return (?tail n ?w1)) = outcome (catch_and_return (?tail n ?w2))"
      by (rule report_same_problem [OF assms(3,4) _ _ same]) simp_all
    then show ?thesis using a1 a2 by (simp add: and_then_def)
  qed
  have "outcome (solve_LPSOLVE e ?p1 w) = outcome (solve_LPSOLVE e ?p2 w)"
  proof (cases "variables p = [] \<or> lp_make_null e")
    case True
    then show ?thesis
      by (auto simp: solve_LPSOLVE_def try_block_def translate_def and_then_def Let_def)
  next
    case False
    let ?w3 = "create_variables (variables p) 0
        (call (Set_verbose SEVERE)
          (call (Make_lp 0 (int_of_size_t (length (variables p)))) w))"
    have obj: "set_objective e ?p1 ?w3 = set_objective e ?p2 ?w3"
      by (simp add: set_objective_def split: option.splits)
    have t1: "try_block e ?p1 w =
        and_then (and_then (set_objective e ?p2 ?w3) (add_rows e ?p1)) (?tail (length (variables p)))"
      using False obj by (simp add: try_block_def translate_def Let_def)
    have t2: "try_block e ?p2 w =
        and_then (and_then (set_objective e ?p2 ?w3) (add_rows e ?p2)) (?tail (length (variables p)))"
      using False by (simp add: try_block_def translate_def Let_def)
    show ?thesis
    proof (cases "set_objective e ?p2 ?w3")
      case (Next w4)
      then show ?thesis
        using tail [of w4 "length (variables p)"]
        by (simp add: solve_LPSOLVE_def t1 t2 and_then_def)
    qed (simp_all add: solve_LPSOLVE_def t1 t2 and_then_def)
  qed
  then show ?thesis using rows loop by simp
qed

theorem unknown_bound_type_adds_no_row_witness:
  "constraint_rows (example_constraint NONE) = []
   \<and> outcome (solve_LPSOLVE (engine_answering 3 0 (\<lambda>j. 2))
        \<lparr>variables = [unit_variable CONTINUOUS, unit_variable CONTINUOUS, unit_variable CONTINUOUS],
         objective = [(0, 1)],
         constraints = [example_constraint LOWER] @ example_constraint NONE # []\<rparr> fresh)
     = Some (False, [2, 2, 2], [],
         [Make_lp 0 3, Set_verbose SEVERE, Set_obj_fn [0, 1, 0, 0], Get_Ncolumns,
          Set_add_rowmode True, Add_constraintex 2 [1, 3] [1, 3] GE 5,
          Set_add_rowmode False, Solve, Get_variables, Delete_lp])"
proof -
  have other: "cstr_bound_type (example_constraint NONE) \<notin> {FIXED, LOWER, UPPER, DOUBLE}"
    by (simp add: example_constraint_def)
  have quiet: "\<forall>i. throws (engine_answering 3 0 (\<lambda>j. 2)) (Alloc_pairs i) = None"
    by (simp add: engine_answering_def)
  have status: "\<forall>cs. lp_solve (engine_answering 3 0 (\<lambda>j. 2)) cs
      = lp_solve (engine_answering 3 0 (\<lambda>j. 2)) (problem_calls cs)"
    by (simp add: engine_answering_def)
  have answers: "\<forall>cs. lp_variables (engine_answering 3 0 (\<lambda>j. 2)) cs
      = lp_variables (engine_answering 3 0 (\<lambda>j. 2)) (problem_calls cs)"
    by (simp add: engine_answering_def)
  show ?thesis
    using unknown_bound_type_adds_no_row [OF other quiet status answers,
        of "[example_constraint LOWER]" "[]" 0 fresh
           "\<lparr>variables = [unit_variable CONTINUOUS, unit_variable CONTINUOUS, unit_variable CONTINUOUS],
             objective = [(0, 1)], constraints = []\<rparr>"]
    by (simp add: outcome_def problem_calls_def solve_LPSOLVE_def catch_and_return_def
        try_block_def translate_def and_then_def write_log_def call_def set_objective_def
        add_rows_def solve_and_report_def handle_status_def constraint_rows_def
        int_of_size_t_def succ_size_t_def engine_answering_def fresh_def
        example_constraint_def unit_variable_def upt_rec)
qed

section \<open>The result vector on failure\<close>

text \<open>
  C9, as amended. On every run that does not reach the branch for status 0 (an empty
  variable set, a null handle, an exception, a status other than 0) or that throws in
  that branch, \<^verbatim>\<open>result_\<close> is left exactly as it was on entry: the function neither
  writes nor clears it, so it is empty afterwards only when it was empty before.
\<close>

theorem failure_leaves_result_as_on_entry:
  assumes "solve_LPSOLVE e p w = Some (b, w')"
    and "\<forall>w5. translate e p w = Next w5 \<longrightarrow>
           lp_solve e (calls w5) \<noteq> 0 \<or> throws e Alloc_result \<noteq> None"
  shows "result w' = result w \<and> (result w = [] \<longrightarrow> result w' = [])"
proof -
  have "result w' = result w"
  proof (cases "translate e p w")
    case (Next w5)
    then have keep: "result w5 = result w" using translate_keeps [where e = e and p = p and w = w] by simp
    have fail: "lp_solve e (calls w5) \<noteq> 0 \<or> throws e Alloc_result \<noteq> None"
      using assms(2) Next by simp
    show ?thesis
      using assms(1) Next keep fail
      by (auto simp: solve_LPSOLVE_def try_block_def and_then_def solve_and_report_def
          handle_status_def catch_and_return_def call_def write_log_def Let_def
          split: option.splits thrown.splits if_splits)
  next
    case (Return b' w5)
    then show ?thesis
      using assms(1) translate_keeps [where e = e and p = p and w = w]
      by (auto simp: solve_LPSOLVE_def try_block_def and_then_def catch_and_return_def)
  next
    case (Raised t w5)
    then show ?thesis
      using assms(1) translate_keeps [where e = e and p = p and w = w]
      by (auto simp: solve_LPSOLVE_def try_block_def and_then_def catch_and_return_def
          write_log_def split: thrown.splits)
  next
    case Out_of_bounds
    then show ?thesis
      using assms(1)
      by (simp add: solve_LPSOLVE_def try_block_def and_then_def catch_and_return_def)
  qed
  then show ?thesis by simp
qed

theorem failure_leaves_result_as_on_entry_witness:
  "solve_LPSOLVE
     ((engine_answering 1 0 (\<lambda>j. 0))
        \<lparr>throws := (\<lambda>s. if s = Alloc_result then Some (Std_exception ''std::exception'')
                         else None)\<rparr>)
     \<lparr>variables = [unit_variable CONTINUOUS], objective = [(0, 1)], constraints = []\<rparr>
     \<lparr>result = [7], log = [], calls = []\<rparr>
   = Some (False,
       \<lparr>result = [7], log = [Logger_err ''Error code = std::exception''],
        calls = [Make_lp 0 1, Set_verbose SEVERE, Set_obj_fn [0, 1], Get_Ncolumns,
                 Resize_lp 0 1, Set_add_rowmode True, Set_add_rowmode False, Solve]\<rparr>)
   \<and> result \<lparr>result = [7], log = [Logger_err ''Error code = std::exception''],
        calls = [Make_lp 0 1, Set_verbose SEVERE, Set_obj_fn [0, 1], Get_Ncolumns,
                 Resize_lp 0 1, Set_add_rowmode True, Set_add_rowmode False, Solve]\<rparr>
     = result \<lparr>result = [7], log = [], calls = []\<rparr>"
proof -
  let ?e = "(engine_answering 1 0 (\<lambda>j. 0))
        \<lparr>throws := (\<lambda>s. if s = Alloc_result then Some (Std_exception ''std::exception'')
                         else None)\<rparr>"
  let ?p = "\<lparr>variables = [unit_variable CONTINUOUS], objective = [(0, 1)],
      constraints = []\<rparr>"
  let ?w = "\<lparr>result = [7], log = [], calls = []\<rparr>"
  let ?w' = "\<lparr>result = [7], log = [Logger_err ''Error code = std::exception''],
        calls = [Make_lp 0 1, Set_verbose SEVERE, Set_obj_fn [0, 1], Get_Ncolumns,
                 Resize_lp 0 1, Set_add_rowmode True, Set_add_rowmode False, Solve]\<rparr>"
  have run: "solve_LPSOLVE ?e ?p ?w = Some (False, ?w')"
    by (simp add: run_defs)
  have failing: "\<forall>w5. translate ?e ?p ?w = Next w5 \<longrightarrow>
      lp_solve ?e (calls w5) \<noteq> 0 \<or> throws ?e Alloc_result \<noteq> None"
    by (simp add: engine_answering_def)
  show ?thesis
    using failure_leaves_result_as_on_entry [OF run failing] run by simp
qed

text \<open>
  The claim as first stated, that every failure leaves the vector empty, fails when the
  vector holds values on entry: two variables, the constraint \<open>x0 + x1 \<le> 1\<close>, an engine
  that reports status 2 (infeasible), and \<^verbatim>\<open>result_\<close> holding \<open>(1, 0)\<close> from an earlier
  solve. The function returns \<open>false\<close> and \<^verbatim>\<open>result_\<close> still holds \<open>(1, 0)\<close>.
\<close>

theorem failure_keeps_earlier_result:
  "solve_LPSOLVE (engine_answering 2 2 (\<lambda>j. 0))
     \<lparr>variables = [unit_variable CONTINUOUS, unit_variable CONTINUOUS],
      objective = [(0, 1), (1, 1)],
      constraints = [\<lparr>coefficients = [(0, 1), (1, 1)], cstr_bound_type = UPPER,
                      cstr_bound = 1, cstr_lb = 0, cstr_ub = 0\<rparr>]\<rparr>
     \<lparr>result = [1, 0], log = [], calls = []\<rparr>
   = Some (False,
       \<lparr>result = [1, 0], log = [Logger_err ''The model is infeasible''],
        calls = [Make_lp 0 2, Set_verbose SEVERE, Set_obj_fn [0, 1, 1], Get_Ncolumns,
                 Resize_lp 1 2, Set_add_rowmode True,
                 Add_constraintex 2 [1, 1] [1, 2] LE 1, Set_add_rowmode False,
                 Solve, Delete_lp]\<rparr>)
   \<and> result (snd (the (solve_LPSOLVE (engine_answering 2 2 (\<lambda>j. 0))
     \<lparr>variables = [unit_variable CONTINUOUS, unit_variable CONTINUOUS],
      objective = [(0, 1), (1, 1)],
      constraints = [\<lparr>coefficients = [(0, 1), (1, 1)], cstr_bound_type = UPPER,
                      cstr_bound = 1, cstr_lb = 0, cstr_ub = 0\<rparr>]\<rparr>
     \<lparr>result = [1, 0], log = [], calls = []\<rparr>))) \<noteq> []"
  by (simp add: run_defs status_message_def)

section \<open>Status codes\<close>

text \<open>
  C5. Each status of the table has its own diagnostic: -2 out of memory, 1 sub-optimal,
  2 infeasible, 3 unbounded, 4 degenerate, 5 numerical failure, 6 abort, 7 timeout,
  9 solved by presolve, 25 accuracy error; the ten diagnostics are pairwise different,
  and every other status has none. For every status other than 0 the function logs the
  diagnostic (if there is one), releases the handle and returns \<open>false\<close>; nothing is
  thrown.
\<close>

theorem status_codes_map_to_one_outcome:
  "status_message (-2) = Some ''Out of memory''
   \<and> status_message 1 = Some ''The model is sub-optimal. Only happens if there are integer variables and there is already an integer solution found. The solution is not guaranteed the most optimal one.''
   \<and> status_message 2 = Some ''The model is infeasible''
   \<and> status_message 3 = Some ''The model is unbounded''
   \<and> status_message 4 = Some ''The model is degenerative''
   \<and> status_message 5 = Some ''Numerical failure encountered''
   \<and> status_message 6 = Some ''The abort() routine was called''
   \<and> status_message 7 = Some ''A timeout occurred''
   \<and> status_message 9 = Some ''The model could be solved by presolve. This can only happen if presolve is active via set_presolve()''
   \<and> status_message 25 = Some ''Accuracy error encountered''
   \<and> inj_on status_message {-2, 1, 2, 3, 4, 5, 6, 7, 9, 25}
   \<and> (\<forall>ret. ret \<notin> {-2, 1, 2, 3, 4, 5, 6, 7, 9, 25} \<longrightarrow> status_message ret = None)
   \<and> (\<forall>ret. translate e p w = Next w5 \<and> lp_solve e (calls w5) = ret \<and> ret \<noteq> 0 \<longrightarrow>
          solve_LPSOLVE e p w =
            Some (False,
              call Delete_lp
                (case status_message ret of
                   Some msg \<Rightarrow> write_log (Logger_err msg) (call Solve w5)
                 | None \<Rightarrow> call Solve w5)))"
proof -
  have table: "status_message (-2) = Some ''Out of memory''
   \<and> status_message 1 = Some ''The model is sub-optimal. Only happens if there are integer variables and there is already an integer solution found. The solution is not guaranteed the most optimal one.''
   \<and> status_message 2 = Some ''The model is infeasible''
   \<and> status_message 3 = Some ''The model is unbounded''
   \<and> status_message 4 = Some ''The model is degenerative''
   \<and> status_message 5 = Some ''Numerical failure encountered''
   \<and> status_message 6 = Some ''The abort() routine was called''
   \<and> status_message 7 = Some ''A timeout occurred''
   \<and> status_message 9 = Some ''The model could be solved by presolve. This can only happen if presolve is active via set_presolve()''
   \<and> status_message 25 = Some ''Accuracy error encountered''"
    by (simp add: status_message_def)
  have other: "\<forall>ret. ret \<notin> {-2, 1, 2, 3, 4, 5, 6, 7, 9, 25} \<longrightarrow> status_message ret = None"
    by (simp add: status_message_def)
  have run: "\<forall>ret. translate e p w = Next w5 \<and> lp_solve e (calls w5) = ret \<and> ret \<noteq> 0 \<longrightarrow>
          solve_LPSOLVE e p w =
            Some (False,
              call Delete_lp
                (case status_message ret of
                   Some msg \<Rightarrow> write_log (Logger_err msg) (call Solve w5)
                 | None \<Rightarrow> call Solve w5))"
    by (simp add: solve_LPSOLVE_def try_block_def and_then_def solve_and_report_def
        handle_status_def catch_and_return_def Let_def split: option.splits)
  show ?thesis using table status_message_inj other run by blast
qed

theorem status_codes_map_to_one_outcome_witness:
  "solve_LPSOLVE (engine_answering 1 2 (\<lambda>j. 0))
     \<lparr>variables = [unit_variable CONTINUOUS], objective = [(0, 1)],
      constraints = [\<lparr>coefficients = [(0, 1)], cstr_bound_type = LOWER,
                      cstr_bound = 2, cstr_lb = 0, cstr_ub = 0\<rparr>]\<rparr> fresh
   = Some (False,
       \<lparr>result = [], log = [Logger_err ''The model is infeasible''],
        calls = [Make_lp 0 1, Set_verbose SEVERE, Set_obj_fn [0, 1], Get_Ncolumns,
                 Resize_lp 1 1, Set_add_rowmode True,
                 Add_constraintex 1 [1] [1] GE 2, Set_add_rowmode False,
                 Solve, Delete_lp]\<rparr>)
   \<and> solve_LPSOLVE (engine_answering 1 13 (\<lambda>j. 0))
     \<lparr>variables = [unit_variable CONTINUOUS], objective = [(0, 1)],
      constraints = []\<rparr> fresh
   = Some (False,
       \<lparr>result = [], log = [],
        calls = [Make_lp 0 1, Set_verbose SEVERE, Set_obj_fn [0, 1], Get_Ncolumns,
                 Resize_lp 0 1, Set_add_rowmode True, Set_add_rowmode False,
                 Solve, Delete_lp]\<rparr>)"
proof -
  let ?p = "\<lparr>variables = [unit_variable CONTINUOUS], objective = [(0, 1)],
      constraints = [\<lparr>coefficients = [(0, 1)], cstr_bound_type = LOWER,
                      cstr_bound = 2, cstr_lb = 0, cstr_ub = 0\<rparr>]\<rparr>"
  let ?w5 = "\<lparr>result = [], log = [],
        calls = [Make_lp 0 1, Set_verbose SEVERE, Set_obj_fn [0, 1], Get_Ncolumns,
                 Resize_lp 1 1, Set_add_rowmode True,
                 Add_constraintex 1 [1] [1] GE 2, Set_add_rowmode False]\<rparr>"
  let ?q = "\<lparr>variables = [unit_variable CONTINUOUS], objective = [(0, 1)],
      constraints = []\<rparr>"
  let ?v5 = "\<lparr>result = [], log = [],
        calls = [Make_lp 0 1, Set_verbose SEVERE, Set_obj_fn [0, 1], Get_Ncolumns,
                 Resize_lp 0 1, Set_add_rowmode True, Set_add_rowmode False]\<rparr>"
  have t: "translate (engine_answering 1 2 (\<lambda>j. 0)) ?p fresh = Next ?w5"
    by (simp add: run_defs)
  have r: "lp_solve (engine_answering 1 2 (\<lambda>j. 0)) (calls ?w5) = 2"
    by (simp add: engine_answering_def)
  have t': "translate (engine_answering 1 13 (\<lambda>j. 0)) ?q fresh = Next ?v5"
    by (simp add: run_defs)
  have r': "lp_solve (engine_answering 1 13 (\<lambda>j. 0)) (calls ?v5) = 13"
    by (simp add: engine_answering_def)
  show ?thesis
    using status_codes_map_to_one_outcome
        [of "engine_answering 1 2 (\<lambda>j. 0)" ?p fresh ?w5] t r
      status_codes_map_to_one_outcome
        [of "engine_answering 1 13 (\<lambda>j. 0)" ?q fresh ?v5] t' r'
    by (simp add: call_def write_log_def)
qed

section \<open>The value returned when the engine reports an optimum\<close>

text \<open>
  C1. Two continuous variables, the objective \<open>x0 + x1\<close>, the constraint
  \<open>x0 + x1 \<le> 1\<close>, and an engine that answers status 0 with the values \<open>(1, 0)\<close>: the
  function stores the two values in \<^verbatim>\<open>result_\<close>, in the order of the variables,
  releases the handle, and returns \<open>false\<close>, the same value it returns on every failure.
\<close>

theorem optimal_status_returns_false:
  "solve_LPSOLVE (engine_answering 2 0 (\<lambda>j. if j = 0 then 1 else 0))
     \<lparr>variables = [unit_variable CONTINUOUS, unit_variable CONTINUOUS],
      objective = [(0, 1), (1, 1)],
      constraints = [\<lparr>coefficients = [(0, 1), (1, 1)], cstr_bound_type = UPPER,
                      cstr_bound = 1, cstr_lb = 0, cstr_ub = 0\<rparr>]\<rparr> fresh
   = Some (False,
       \<lparr>result = [1, 0], log = [],
        calls = [Make_lp 0 2, Set_verbose SEVERE, Set_obj_fn [0, 1, 1], Get_Ncolumns,
                 Resize_lp 1 2, Set_add_rowmode True,
                 Add_constraintex 2 [1, 1] [1, 2] LE 1, Set_add_rowmode False,
                 Solve, Get_variables, Delete_lp]\<rparr>)"
  by (simp add: run_defs)

section \<open>Bounds of the variables\<close>

text \<open>
  C2. One continuous variable with the explicit bounds \<open>[0, 1]\<close> and the constraint
  \<open>x0 \<ge> 2\<close>: the calls made before \<^verbatim>\<open>solve\<close> are listed, none of them carries a bound
  of the variable, and they are the same calls when the bounds are \<open>[5, 7]\<close>. The bounds
  read at line 33 go nowhere.
\<close>

theorem variable_bounds_never_registered:
  "translate (engine_answering 1 2 (\<lambda>j. 0))
     \<lparr>variables = [\<lparr>var_type = CONTINUOUS, var_bound_type = DOUBLE, var_lb = 0, var_ub = 1\<rparr>],
      objective = [(0, 1)],
      constraints = [\<lparr>coefficients = [(0, 1)], cstr_bound_type = LOWER,
                      cstr_bound = 2, cstr_lb = 0, cstr_ub = 0\<rparr>]\<rparr> fresh
   = Next \<lparr>result = [], log = [],
        calls = [Make_lp 0 1, Set_verbose SEVERE, Set_obj_fn [0, 1], Get_Ncolumns,
                 Resize_lp 1 1, Set_add_rowmode True,
                 Add_constraintex 1 [1] [1] GE 2, Set_add_rowmode False]\<rparr>
   \<and> translate (engine_answering 1 2 (\<lambda>j. 0))
     \<lparr>variables = [\<lparr>var_type = CONTINUOUS, var_bound_type = DOUBLE, var_lb = 0, var_ub = 1\<rparr>],
      objective = [(0, 1)],
      constraints = [\<lparr>coefficients = [(0, 1)], cstr_bound_type = LOWER,
                      cstr_bound = 2, cstr_lb = 0, cstr_ub = 0\<rparr>]\<rparr> fresh
   = translate (engine_answering 1 2 (\<lambda>j. 0))
     \<lparr>variables = [\<lparr>var_type = CONTINUOUS, var_bound_type = DOUBLE, var_lb = 5, var_ub = 7\<rparr>],
      objective = [(0, 1)],
      constraints = [\<lparr>coefficients = [(0, 1)], cstr_bound_type = LOWER,
                      cstr_bound = 2, cstr_lb = 0, cstr_ub = 0\<rparr>]\<rparr> fresh"
  by (simp add: run_defs)

section \<open>Integer and binary variables\<close>

text \<open>
  C3. Three variables, the one of index 1 binary and the one of index 2 integer. The
  objective and the constraint address variable 1 as column 2 and variable 2 as column 3
  (\<^verbatim>\<open>var_idx + 1\<close>), but \<^verbatim>\<open>set_binary\<close> is called for column 1 and \<^verbatim>\<open>set_int\<close> for
  column 2: each mark lands on the column of the variable before.
\<close>

theorem integrality_marks_previous_column:
  "translate (engine_answering 3 0 (\<lambda>j. 0))
     \<lparr>variables = [unit_variable CONTINUOUS, unit_variable BINARY, unit_variable INTEGER],
      objective = [(1, 4)],
      constraints = [\<lparr>coefficients = [(1, 1), (2, 1)], cstr_bound_type = UPPER,
                      cstr_bound = 1, cstr_lb = 0, cstr_ub = 0\<rparr>]\<rparr> fresh
   = Next \<lparr>result = [], log = [],
        calls = [Make_lp 0 3, Set_verbose SEVERE, Set_binary 1 True, Set_int 2 True,
                 Set_obj_fn [0, 0, 4, 0], Get_Ncolumns,
                 Resize_lp 1 3, Set_add_rowmode True,
                 Add_constraintex 2 [1, 1] [2, 3] LE 1, Set_add_rowmode False]\<rparr>
   \<and> column_of 1 = 2 \<and> column_of 2 = 3"
  by (simp add: run_defs column_of_def)

section \<open>Release of the handle\<close>

text \<open>
  C8. One variable, and the allocation of the objective row throws after the handle
  has been created: the handler logs the exception and the function returns without a
  call of \<^verbatim>\<open>delete_lp\<close>. (Without an exception the handle is released once, as the last
  call: \<open>handle_released_without_exception\<close>.)
\<close>

theorem exception_after_creation_skips_release:
  "solve_LPSOLVE
     ((engine_answering 1 0 (\<lambda>j. 0))
        \<lparr>throws := (\<lambda>s. if s = Alloc_row then Some (Std_exception ''std::exception'')
                         else None)\<rparr>)
     \<lparr>variables = [unit_variable CONTINUOUS], objective = [(0, 1)], constraints = []\<rparr> fresh
   = Some (False,
       \<lparr>result = [], log = [Logger_err ''Error code = std::exception''],
        calls = [Make_lp 0 1, Set_verbose SEVERE]\<rparr>)"
  by (simp add: run_defs)

end
